theory Spec2Isabelle
  imports Main "HOL-Library.FSet"
begin

section \<open>The adaptive set of \<open>task 7/main.cpp\<close>\<close>

text \<open>
  The program keeps a set of \<open>int\<close> behind the abstract class \<open>SetImpl\<close>, with two
  concrete classes: \<open>VectorSetImpl\<close> stores a \<open>std::vector<int>\<close>, \<open>HashSetImpl\<close> a
  \<open>std::unordered_set<int>\<close>. The class \<open>Set\<close> owns one of them and replaces it by the
  other kind around the constant \<open>SWITCH_THRESHOLD\<close>.

  Modelling decisions.
  \<^item> The elements are C++ \<open>int\<close>. The code only compares, hashes and copies them and does
    no arithmetic on them, so they are HOL integers; every statement below holds in
    particular for the 32-bit range.
  \<^item> \<open>size_t\<close> values are lengths of containers held in memory; they are natural numbers.
  \<^item> A \<open>std::vector<int>\<close> is an \<open>int list\<close> (\<open>push_back\<close> appends).
  \<^item> A \<open>std::unordered_set<int>\<close> is a finite set, \<open>int fset\<close>. The order in which C++
    iterates over it is unspecified; it is the parameter \<open>it\<close> of the functions below, of
    which the theorems assume only \<open>iteration_ok\<close>: every element is visited once.
  \<^item> The virtual dispatch and the \<open>dynamic_cast\<close> tests are the case distinction on the
    constructor of \<open>SetImpl\<close>.
\<close>

subsection \<open>The two implementations\<close>

datatype SetImpl =
    is_VectorSetImpl: VectorSetImpl "int list"
  | is_HashSetImpl: HashSetImpl "int fset"

type_synonym iteration = "int fset \<Rightarrow> int list"

definition iteration_ok :: "iteration \<Rightarrow> bool" where
  "iteration_ok it = (\<forall>A. distinct (it A) \<and> set (it A) = fset A)"

text \<open>\<open>add\<close>: the vector appends the value when \<open>std::find\<close> does not find it; the hash set
  inserts.\<close>

fun SetImpl_add :: "int \<Rightarrow> SetImpl \<Rightarrow> SetImpl" where
  "SetImpl_add v (VectorSetImpl data) =
     (if v \<notin> set data then VectorSetImpl (data @ [v]) else VectorSetImpl data)"
| "SetImpl_add v (HashSetImpl data) = HashSetImpl (finsert v data)"

text \<open>\<open>remove\<close>: the erase-remove idiom deletes every occurrence and keeps the order of
  the rest; the hash set erases the key.\<close>

fun SetImpl_remove :: "int \<Rightarrow> SetImpl \<Rightarrow> SetImpl" where
  "SetImpl_remove v (VectorSetImpl data) = VectorSetImpl (removeAll v data)"
| "SetImpl_remove v (HashSetImpl data) = HashSetImpl (data |-| {|v|})"

fun SetImpl_contains :: "SetImpl \<Rightarrow> int \<Rightarrow> bool" where
  "SetImpl_contains (VectorSetImpl data) v = (v \<in> set data)"
| "SetImpl_contains (HashSetImpl data) v = (v |\<in>| data)"

fun SetImpl_size :: "SetImpl \<Rightarrow> nat" where
  "SetImpl_size (VectorSetImpl data) = length data"
| "SetImpl_size (HashSetImpl data) = fcard data"

fun SetImpl_clone :: "SetImpl \<Rightarrow> SetImpl" where
  "SetImpl_clone (VectorSetImpl data) = VectorSetImpl data"
| "SetImpl_clone (HashSetImpl data) = HashSetImpl data"

fun get_elements :: "iteration \<Rightarrow> SetImpl \<Rightarrow> int list" where
  "get_elements it (VectorSetImpl data) = data"
| "get_elements it (HashSetImpl data) = it data"

text \<open>\<open>union_with\<close>: the result starts as a copy of the own data; the loop runs over
  \<open>other.get_elements()\<close>. The vector tests \<open>contains\<close> on itself (not on the result)
  before \<open>push_back\<close>.\<close>

fun SetImpl_union_with :: "iteration \<Rightarrow> SetImpl \<Rightarrow> SetImpl \<Rightarrow> SetImpl" where
  "SetImpl_union_with it (VectorSetImpl data) other =
     VectorSetImpl
       (fold (\<lambda>val result. if \<not> SetImpl_contains (VectorSetImpl data) val
                             then result @ [val] else result)
             (get_elements it other) data)"
| "SetImpl_union_with it (HashSetImpl data) other =
     HashSetImpl (fold (\<lambda>val result. finsert val result) (get_elements it other) data)"

text \<open>\<open>intersection_with\<close>: the result starts empty; the loop runs over the own data and
  asks \<open>other.contains\<close>.\<close>

fun SetImpl_intersection_with :: "iteration \<Rightarrow> SetImpl \<Rightarrow> SetImpl \<Rightarrow> SetImpl" where
  "SetImpl_intersection_with it (VectorSetImpl data) other =
     VectorSetImpl
       (fold (\<lambda>val result. if SetImpl_contains other val then result @ [val] else result)
             data [])"
| "SetImpl_intersection_with it (HashSetImpl data) other =
     HashSetImpl
       (fold (\<lambda>val result. if SetImpl_contains other val then finsert val result else result)
             (it data) {||})"

subsection \<open>The class \<open>Set\<close>\<close>

record Set_t =
  impl :: SetImpl

definition SWITCH_THRESHOLD :: nat where
  "SWITCH_THRESHOLD = 20"

text \<open>The constructor.\<close>

definition Set_new :: Set_t where
  "Set_new = \<lparr>impl = VectorSetImpl []\<rparr>"

definition switch_to_hash :: "iteration \<Rightarrow> Set_t \<Rightarrow> Set_t" where
  "switch_to_hash it s =
     (let elements = get_elements it (impl s)
      in s\<lparr>impl := fold SetImpl_add elements (HashSetImpl {||})\<rparr>)"

definition switch_to_vector :: "iteration \<Rightarrow> Set_t \<Rightarrow> Set_t" where
  "switch_to_vector it s =
     (let elements = get_elements it (impl s)
      in s\<lparr>impl := fold SetImpl_add elements (VectorSetImpl [])\<rparr>)"

definition Set_add :: "iteration \<Rightarrow> int \<Rightarrow> Set_t \<Rightarrow> Set_t" where
  "Set_add it v s =
     (let s1 = (if SetImpl_size (impl s) \<ge> SWITCH_THRESHOLD \<and> is_VectorSetImpl (impl s)
                then switch_to_hash it s else s)
      in s1\<lparr>impl := SetImpl_add v (impl s1)\<rparr>)"

definition Set_remove :: "iteration \<Rightarrow> int \<Rightarrow> Set_t \<Rightarrow> Set_t" where
  "Set_remove it v s =
     (let s1 = s\<lparr>impl := SetImpl_remove v (impl s)\<rparr>
      in if SetImpl_size (impl s1) \<le> SWITCH_THRESHOLD \<and> is_HashSetImpl (impl s1)
         then switch_to_vector it s1 else s1)"

definition Set_contains :: "Set_t \<Rightarrow> int \<Rightarrow> bool" where
  "Set_contains s v = SetImpl_contains (impl s) v"

definition Set_size :: "Set_t \<Rightarrow> nat" where
  "Set_size s = SetImpl_size (impl s)"

text \<open>\<open>union_with\<close> and \<open>intersection_with\<close> construct \<open>Set result\<close> and overwrite its
  \<open>impl\<close> with what the implementation returns.\<close>

definition Set_union_with :: "iteration \<Rightarrow> Set_t \<Rightarrow> Set_t \<Rightarrow> Set_t" where
  "Set_union_with it s other =
     (let result = Set_new
      in result\<lparr>impl := SetImpl_union_with it (impl s) (impl other)\<rparr>)"

definition Set_intersection_with :: "iteration \<Rightarrow> Set_t \<Rightarrow> Set_t \<Rightarrow> Set_t" where
  "Set_intersection_with it s other =
     (let result = Set_new
      in result\<lparr>impl := SetImpl_intersection_with it (impl s) (impl other)\<rparr>)"

text \<open>The loop of \<open>main\<close> that fills a set: \<open>for (...) s.add(i)\<close>.\<close>

definition add_all :: "iteration \<Rightarrow> int list \<Rightarrow> Set_t \<Rightarrow> Set_t" where
  "add_all it vs s = fold (Set_add it) vs s"

subsection \<open>Abstraction and invariant\<close>

text \<open>The mathematical set an implementation stands for, and the invariant of the vector:
  no value is stored twice.\<close>

fun elems :: "SetImpl \<Rightarrow> int set" where
  "elems (VectorSetImpl data) = set data"
| "elems (HashSetImpl data) = fset data"

fun SetImpl_inv :: "SetImpl \<Rightarrow> bool" where
  "SetImpl_inv (VectorSetImpl data) = distinct data"
| "SetImpl_inv (HashSetImpl data) = True"

text \<open>The states of \<open>Set\<close> that a caller can produce: \<open>impl\<close> is private, so every set
  comes from the constructor and the public member functions.\<close>

inductive reachable :: "iteration \<Rightarrow> Set_t \<Rightarrow> bool" for it :: iteration where
  reachable_new: "reachable it Set_new"
| reachable_add: "reachable it s \<Longrightarrow> reachable it (Set_add it v s)"
| reachable_remove: "reachable it s \<Longrightarrow> reachable it (Set_remove it v s)"
| reachable_union:
    "reachable it s \<Longrightarrow> reachable it other \<Longrightarrow> reachable it (Set_union_with it s other)"
| reachable_intersection:
    "reachable it s \<Longrightarrow> reachable it other \<Longrightarrow>
     reachable it (Set_intersection_with it s other)"

subsection \<open>Sequences of operations and the reference set\<close>

text \<open>A caller's sequence of \<open>add\<close> and \<open>remove\<close> calls, run on the class and on a
  mathematical set.\<close>

datatype operation = Add int | Remove int

fun apply_operation :: "iteration \<Rightarrow> operation \<Rightarrow> Set_t \<Rightarrow> Set_t" where
  "apply_operation it (Add v) s = Set_add it v s"
| "apply_operation it (Remove v) s = Set_remove it v s"

definition run :: "iteration \<Rightarrow> operation list \<Rightarrow> Set_t \<Rightarrow> Set_t" where
  "run it ops s = fold (apply_operation it) ops s"

fun reference_step :: "operation \<Rightarrow> int set \<Rightarrow> int set" where
  "reference_step (Add v) S = insert v S"
| "reference_step (Remove v) S = S - {v}"

definition reference :: "operation list \<Rightarrow> int set" where
  "reference ops = fold reference_step ops {}"

text \<open>The invariant of the specification, in terms of what an implementation shows:
  \<open>get_elements\<close> lists no value twice and \<open>size\<close> counts the distinct values.\<close>

definition rep_invariant :: "iteration \<Rightarrow> SetImpl \<Rightarrow> bool" where
  "rep_invariant it r =
     (distinct (get_elements it r) \<and> SetImpl_size r = card (set (get_elements it r)))"

text \<open>What the two guards of \<open>Set::add\<close> and \<open>Set::remove\<close> maintain between calls: a
  vector-backed set is not larger than the threshold, a hash-backed set not smaller.\<close>

definition policy_settled :: "Set_t \<Rightarrow> bool" where
  "policy_settled s =
     (\<not> (is_VectorSetImpl (impl s) \<and> SWITCH_THRESHOLD < Set_size s)
      \<and> \<not> (is_HashSetImpl (impl s) \<and> Set_size s < SWITCH_THRESHOLD))"

subsection \<open>Objects in memory\<close>

text \<open>
  Whether \<open>union_with\<close> and \<open>intersection_with\<close> touch their operands is a question about
  objects, so for these two functions the implementations are also placed in a store.
  A \<open>std::unique_ptr<SetImpl>\<close> is the address of a cell; \<open>std::make_unique\<close> takes the next
  unused address; the destructor of the pointer empties the cell. Dereferencing a pointer
  to an empty cell (undefined behaviour in C++) is the result \<open>None\<close>. The value that
  \<open>SetImpl::union_with\<close> builds in its fresh object is the one computed by
  \<open>SetImpl_union_with\<close>; all its writes go to that object.
\<close>

record heap =
  cells :: "nat \<Rightarrow> SetImpl option"
  next_free :: nat

record Set_ref =
  impl_ptr :: nat

text \<open>The allocator has handed out only addresses below \<open>next_free\<close>.\<close>

definition heap_ok :: "heap \<Rightarrow> bool" where
  "heap_ok h = (\<forall>p. next_free h \<le> p \<longrightarrow> cells h p = None)"

definition make_unique :: "SetImpl \<Rightarrow> heap \<Rightarrow> nat \<times> heap" where
  "make_unique x h =
     (next_free h, h\<lparr>cells := (cells h)(next_free h := Some x), next_free := Suc (next_free h)\<rparr>)"

definition destroy :: "nat \<Rightarrow> heap \<Rightarrow> heap" where
  "destroy p h = h\<lparr>cells := (cells h)(p := None)\<rparr>"

definition SetImpl_union_with_h :: "iteration \<Rightarrow> nat \<Rightarrow> nat \<Rightarrow> heap \<Rightarrow> (nat \<times> heap) option" where
  "SetImpl_union_with_h it this other h =
     (case cells h this of
        None \<Rightarrow> None
      | Some l \<Rightarrow>
          (case cells h other of
             None \<Rightarrow> None
           | Some r \<Rightarrow> Some (make_unique (SetImpl_union_with it l r) h)))"

definition SetImpl_intersection_with_h :: "iteration \<Rightarrow> nat \<Rightarrow> nat \<Rightarrow> heap \<Rightarrow> (nat \<times> heap) option" where
  "SetImpl_intersection_with_h it this other h =
     (case cells h this of
        None \<Rightarrow> None
      | Some l \<Rightarrow>
          (case cells h other of
             None \<Rightarrow> None
           | Some r \<Rightarrow> Some (make_unique (SetImpl_intersection_with it l r) h)))"

text \<open>\<open>Set result;\<close> allocates an empty vector; the move assignment to \<open>result.impl\<close>
  destroys it after the new implementation has been built.\<close>

definition Set_new_h :: "heap \<Rightarrow> Set_ref \<times> heap" where
  "Set_new_h h = (let (p, h1) = make_unique (VectorSetImpl []) h in (\<lparr>impl_ptr = p\<rparr>, h1))"

definition Set_union_with_h :: "iteration \<Rightarrow> Set_ref \<Rightarrow> Set_ref \<Rightarrow> heap \<Rightarrow> (Set_ref \<times> heap) option" where
  "Set_union_with_h it s other h =
     (let (result, h1) = Set_new_h h
      in case SetImpl_union_with_h it (impl_ptr s) (impl_ptr other) h1 of
           None \<Rightarrow> None
         | Some (p, h2) \<Rightarrow> Some (result\<lparr>impl_ptr := p\<rparr>, destroy (impl_ptr result) h2))"

definition Set_intersection_with_h :: "iteration \<Rightarrow> Set_ref \<Rightarrow> Set_ref \<Rightarrow> heap \<Rightarrow> (Set_ref \<times> heap) option" where
  "Set_intersection_with_h it s other h =
     (let (result, h1) = Set_new_h h
      in case SetImpl_intersection_with_h it (impl_ptr s) (impl_ptr other) h1 of
           None \<Rightarrow> None
         | Some (p, h2) \<Rightarrow> Some (result\<lparr>impl_ptr := p\<rparr>, destroy (impl_ptr result) h2))"

text \<open>A store with a hash set at address 0 and a vector at address 1.\<close>

definition example_heap :: heap where
  "example_heap =
     \<lparr>cells = (\<lambda>p. None)(0 := Some (HashSetImpl {|1, 2|}), 1 := Some (VectorSetImpl [2, 3])),
      next_free = 2\<rparr>"
section \<open>Basic facts\<close>

subsection \<open>The implementations against the abstraction\<close>

lemma fold_add_hash:
  "fold SetImpl_add xs (HashSetImpl A) = HashSetImpl (A |\<union>| fset_of_list xs)"
  by (induction xs arbitrary: A) auto

lemma elems_add: "elems (SetImpl_add v r) = insert v (elems r)"
  by (cases r) auto

lemma inv_add: "SetImpl_inv r \<Longrightarrow> SetImpl_inv (SetImpl_add v r)"
  by (cases r) auto

lemma elems_remove: "elems (SetImpl_remove v r) = elems r - {v}"
  by (cases r) auto

lemma inv_remove: "SetImpl_inv r \<Longrightarrow> SetImpl_inv (SetImpl_remove v r)"
  by (cases r) (auto simp: distinct_removeAll)

lemma contains_elems: "SetImpl_contains r v = (v \<in> elems r)"
  by (cases r) auto

lemma size_card: "SetImpl_inv r \<Longrightarrow> SetImpl_size r = card (elems r)"
  by (cases r) (auto simp: distinct_card fcard.rep_eq)

lemma kind_add: "is_VectorSetImpl (SetImpl_add v r) = is_VectorSetImpl r"
  by (cases r) auto

lemma kind_remove: "is_VectorSetImpl (SetImpl_remove v r) = is_VectorSetImpl r"
  by (cases r) auto

lemma elems_fold_add: "elems (fold SetImpl_add xs r) = elems r \<union> set xs"
  by (induction xs arbitrary: r) (auto simp: elems_add)

lemma inv_fold_add: "SetImpl_inv r \<Longrightarrow> SetImpl_inv (fold SetImpl_add xs r)"
  by (induction xs arbitrary: r) (auto simp: inv_add)

lemma kind_fold_add: "is_VectorSetImpl (fold SetImpl_add xs r) = is_VectorSetImpl r"
  by (induction xs arbitrary: r) (auto simp: kind_add)

lemma set_get_elements:
  "iteration_ok it \<Longrightarrow> set (get_elements it r) = elems r"
  by (cases r) (auto simp: iteration_ok_def)

lemma distinct_get_elements:
  "iteration_ok it \<Longrightarrow> SetImpl_inv r \<Longrightarrow> distinct (get_elements it r)"
  by (cases r) (auto simp: iteration_ok_def)

lemma vector_union_fold:
  "fold (\<lambda>val result. if \<not> P val then result @ [val] else result) ys acc
     = acc @ filter (\<lambda>val. \<not> P val) ys"
  by (induction ys arbitrary: acc) auto

lemma vector_inter_fold:
  "fold (\<lambda>val result. if P val then result @ [val] else result) ys acc
     = acc @ filter P ys"
  by (induction ys arbitrary: acc) auto

lemma hash_union_fold:
  "fold (\<lambda>val result. finsert val result) ys acc = acc |\<union>| fset_of_list ys"
  by (induction ys arbitrary: acc) auto

lemma hash_inter_fold:
  "fold (\<lambda>val result. if P val then finsert val result else result) ys acc
     = acc |\<union>| fset_of_list (filter P ys)"
  by (induction ys arbitrary: acc) auto

lemma elems_union:
  "iteration_ok it \<Longrightarrow> elems (SetImpl_union_with it l r) = elems l \<union> elems r"
  by (cases l) (auto simp: vector_union_fold hash_union_fold set_get_elements fset_of_list.rep_eq)

lemma elems_inter:
  "iteration_ok it \<Longrightarrow> elems (SetImpl_intersection_with it l r) = elems l \<inter> elems r"
  by (cases l) (auto simp: vector_inter_fold hash_inter_fold contains_elems fset_of_list.rep_eq iteration_ok_def)

lemma inv_union:
  "iteration_ok it \<Longrightarrow> SetImpl_inv l \<Longrightarrow> SetImpl_inv r \<Longrightarrow> SetImpl_inv (SetImpl_union_with it l r)"
  by (cases l) (auto simp: vector_union_fold distinct_get_elements)

lemma inv_inter:
  "SetImpl_inv l \<Longrightarrow> SetImpl_inv (SetImpl_intersection_with it l r)"
  by (cases l) (auto simp: vector_inter_fold)

lemma kind_union: "is_VectorSetImpl (SetImpl_union_with it l r) = is_VectorSetImpl l"
  by (cases l) auto

lemma kind_inter: "is_VectorSetImpl (SetImpl_intersection_with it l r) = is_VectorSetImpl l"
  by (cases l) auto

lemma elems_Set_add: "elems (impl (Set_add it v s)) = insert v (elems (impl s))"
  by (cases "impl s") (auto simp: Set_add_def switch_to_hash_def elems_add elems_fold_add Let_def)

lemma inv_Set_add: "SetImpl_inv (impl s) \<Longrightarrow> SetImpl_inv (impl (Set_add it v s))"
  by (auto simp: Set_add_def switch_to_hash_def inv_add inv_fold_add Let_def)

lemma elems_Set_remove:
  "iteration_ok it \<Longrightarrow> elems (impl (Set_remove it v s)) = elems (impl s) - {v}"
  by (auto simp: Set_remove_def switch_to_vector_def elems_remove elems_fold_add Let_def set_get_elements)

lemma inv_Set_remove: "SetImpl_inv (impl s) \<Longrightarrow> SetImpl_inv (impl (Set_remove it v s))"
  by (auto simp: Set_remove_def switch_to_vector_def inv_remove inv_fold_add Let_def)

subsection \<open>An iteration order, and runs of operations\<close>

lemma iteration_ok_sorted: "iteration_ok sorted_list_of_fset"
  by (simp add: iteration_ok_def sorted_list_of_fset.rep_eq)

lemma run_abstraction:
  "iteration_ok it \<Longrightarrow> SetImpl_inv (impl s) \<Longrightarrow>
   elems (impl (run it ops s)) = fold reference_step ops (elems (impl s))
   \<and> SetImpl_inv (impl (run it ops s))"
proof (induction ops arbitrary: s)
  case Nil
  then show ?case by (simp add: run_def)
next
  case (Cons a ops)
  have step: "elems (impl (apply_operation it a s)) = reference_step a (elems (impl s))"
    using Cons.prems by (cases a) (simp_all add: elems_Set_add elems_Set_remove)
  have inv: "SetImpl_inv (impl (apply_operation it a s))"
    using Cons.prems by (cases a) (simp_all add: inv_Set_add inv_Set_remove)
  from Cons.IH[OF Cons.prems(1) inv] step show ?case
    by (simp add: run_def)
qed

lemma kind_hash_vector: "is_HashSetImpl r = (\<not> is_VectorSetImpl r)"
  by (cases r) auto

lemma rep_invariant_iff:
  "iteration_ok it \<Longrightarrow> rep_invariant it r = SetImpl_inv r"
  by (cases r) (auto simp: rep_invariant_def iteration_ok_def distinct_card fcard.rep_eq)

subsection \<open>The loop of \<open>main\<close> that adds \<open>0, 1, 2, ...\<close>\<close>

lemma add_all_snoc: "add_all it (vs @ [v]) s = Set_add it v (add_all it vs s)"
  by (simp add: add_all_def)

lemma fcard_upto: "fcard (fset_of_list (map int [0..<n])) = n"
  by (simp add: fcard.rep_eq fset_of_list.rep_eq card_image)

lemma add_upto:
  "add_all it (map int [0..<n]) Set_new =
     \<lparr>impl = (if n \<le> 20 then VectorSetImpl (map int [0..<n])
               else HashSetImpl (fset_of_list (map int [0..<n])))\<rparr>"
proof (induction n)
  case 0
  show ?case by (simp add: add_all_def Set_new_def)
next
  case (Suc n)
  have "add_all it (map int [0..<Suc n]) Set_new
          = Set_add it (int n) (add_all it (map int [0..<n]) Set_new)"
    by (simp add: add_all_snoc)
  also have "\<dots> = \<lparr>impl = (if Suc n \<le> 20 then VectorSetImpl (map int [0..<Suc n])
               else HashSetImpl (fset_of_list (map int [0..<Suc n])))\<rparr>"
    unfolding Suc.IH
    by (auto simp: Set_add_def SWITCH_THRESHOLD_def switch_to_hash_def fold_add_hash fcard_upto)
  finally show ?case .
qed

lemma contains_add_upto:
  "Set_contains (add_all it (map int [0..<n]) Set_new) v = (0 \<le> v \<and> v < int n)"
  by (auto simp: add_upto Set_contains_def fset_of_list_elem image_iff intro: nat_0_le[symmetric] rev_bexI[of "nat v"])

subsection \<open>Union and intersection on the class\<close>

lemma elems_Set_union:
  "iteration_ok it \<Longrightarrow> elems (impl (Set_union_with it A B)) = elems (impl A) \<union> elems (impl B)"
  by (simp add: Set_union_with_def elems_union)

lemma elems_Set_inter:
  "iteration_ok it \<Longrightarrow>
   elems (impl (Set_intersection_with it A B)) = elems (impl A) \<inter> elems (impl B)"
  by (simp add: Set_intersection_with_def elems_inter)

lemma inv_Set_union:
  "iteration_ok it \<Longrightarrow> SetImpl_inv (impl A) \<Longrightarrow> SetImpl_inv (impl B) \<Longrightarrow>
   SetImpl_inv (impl (Set_union_with it A B))"
  by (simp add: Set_union_with_def inv_union)

lemma inv_Set_inter:
  "SetImpl_inv (impl A) \<Longrightarrow> SetImpl_inv (impl (Set_intersection_with it A B))"
  by (simp add: Set_intersection_with_def inv_inter)

lemma hash_inv: "is_HashSetImpl r \<Longrightarrow> SetImpl_inv r"
  by (cases r) auto

lemma vector_inv: "is_VectorSetImpl r \<Longrightarrow> SetImpl_size r = card (elems r) \<Longrightarrow> SetImpl_inv r"
  by (cases r) (auto simp: card_distinct)

lemma size_Set_union:
  "iteration_ok it \<Longrightarrow> SetImpl_inv (impl A) \<Longrightarrow> SetImpl_inv (impl B) \<Longrightarrow>
   Set_size (Set_union_with it A B) = card (elems (impl A) \<union> elems (impl B))"
  by (simp add: Set_size_def size_card[OF inv_Set_union] elems_Set_union)

lemma size_Set_inter:
  "iteration_ok it \<Longrightarrow> SetImpl_inv (impl A) \<Longrightarrow>
   Set_size (Set_intersection_with it A B) = card (elems (impl A) \<inter> elems (impl B))"
  by (simp add: Set_size_def size_card[OF inv_Set_inter] elems_Set_inter)

lemma kind_Set_union:
  "is_VectorSetImpl (impl (Set_union_with it A B)) = is_VectorSetImpl (impl A)"
  by (simp add: Set_union_with_def kind_union)

lemma kind_Set_inter:
  "is_VectorSetImpl (impl (Set_intersection_with it A B)) = is_VectorSetImpl (impl A)"
  by (simp add: Set_intersection_with_def kind_inter)

text \<open>Every set a caller can produce satisfies the invariant that the theorems on \<open>Set\<close>
  assume.\<close>

lemma reachable_inv: "reachable it s \<Longrightarrow> iteration_ok it \<Longrightarrow> SetImpl_inv (impl s)"
proof (induction rule: reachable.induct)
  case reachable_new
  show ?case by (simp add: Set_new_def)
next
  case (reachable_add s v)
  then show ?case by (simp add: inv_Set_add)
next
  case (reachable_remove s v)
  then show ?case by (simp add: inv_Set_remove)
next
  case (reachable_union s other)
  then show ?case by (simp add: inv_Set_union)
next
  case (reachable_intersection s other)
  then show ?case by (simp add: inv_Set_inter)
qed

subsection \<open>The two sets of \<open>main\<close>\<close>

lemma main_s2:
  "add_all it [10, 20, 25, 30] Set_new = \<lparr>impl = VectorSetImpl [10, 20, 25, 30]\<rparr>"
  by (simp add: add_all_def Set_add_def Set_new_def SWITCH_THRESHOLD_def)

lemma card_example_union: "card ({0..24} \<union> {10, 20, 25, 30::int}) = 27"
proof -
  have "{0..24} \<union> {10, 20, 25, 30::int} = insert 30 {0..25}" by auto
  then show ?thesis by simp
qed

lemma example_inter: "{0..24} \<inter> {10, 20, 25, 30::int} = {10, 20}"
  by auto

lemma example_union_comm: "{10, 20, 25, 30::int} \<union> {0..24} = {0..24} \<union> {10, 20, 25, 30}"
  by (rule Un_commute)

lemma main_s1:
  "is_HashSetImpl (impl (add_all it (map int [0..<25]) Set_new))
   \<and> SetImpl_inv (impl (add_all it (map int [0..<25]) Set_new))
   \<and> elems (impl (add_all it (map int [0..<25]) Set_new)) = {0..24}"
proof -
  have "\<And>v. (v \<in> elems (impl (add_all it (map int [0..<25]) Set_new))) = (v \<in> {0..24})"
    using contains_add_upto[of it 25] by (simp add: Set_contains_def contains_elems) arith
  then have "elems (impl (add_all it (map int [0..<25]) Set_new)) = {0..24}"
    by (rule set_eqI)
  then show ?thesis by (simp add: add_upto)
qed

lemma main_s2_facts:
  "is_VectorSetImpl (impl (add_all it [10, 20, 25, 30] Set_new))
   \<and> SetImpl_inv (impl (add_all it [10, 20, 25, 30] Set_new))
   \<and> elems (impl (add_all it [10, 20, 25, 30] Set_new)) = {10, 20, 25, 30}"
  by (simp add: main_s2)

subsection \<open>What the policy maintains\<close>

lemma finite_elems: "finite (elems r)"
  by (cases r) auto

lemma kind_Set_add:
  "is_VectorSetImpl (impl (Set_add it v s))
     = (is_VectorSetImpl (impl s) \<and> Set_size s < SWITCH_THRESHOLD)"
  by (cases "impl s")
     (auto simp: Set_add_def Set_size_def switch_to_hash_def fold_add_hash kind_add Let_def)

lemma kind_Set_remove:
  "is_VectorSetImpl (impl (Set_remove it v s))
     = (is_VectorSetImpl (impl s) \<or> SetImpl_size (SetImpl_remove v (impl s)) \<le> SWITCH_THRESHOLD)"
  by (cases "impl s")
     (auto simp: Set_remove_def switch_to_vector_def kind_fold_add Let_def)

lemma policy_settled_add:
  assumes "SetImpl_inv (impl s)" and "policy_settled s"
  shows "policy_settled (Set_add it v s)"
proof -
  have i1: "SetImpl_inv (impl (Set_add it v s))" using assms(1) by (rule inv_Set_add)
  have sz: "Set_size (Set_add it v s) = card (insert v (elems (impl s)))"
    by (simp add: Set_size_def size_card[OF i1] elems_Set_add)
  have s0: "Set_size s = card (elems (impl s))"
    by (simp add: Set_size_def size_card[OF assms(1)])
  have le: "card (elems (impl s)) \<le> card (insert v (elems (impl s)))"
    by (simp add: card_insert_le finite_elems)
  have ge: "card (insert v (elems (impl s))) \<le> Suc (card (elems (impl s)))"
    by (simp add: card_insert_if finite_elems)
  show ?thesis
    using assms(2) le ge
    by (auto simp: policy_settled_def kind_Set_add kind_hash_vector sz s0)
qed

lemma policy_settled_remove:
  assumes "iteration_ok it" and "SetImpl_inv (impl s)" and "policy_settled s"
  shows "policy_settled (Set_remove it v s)"
proof -
  have i1: "SetImpl_inv (impl (Set_remove it v s))" using assms(2) by (rule inv_Set_remove)
  have i2: "SetImpl_inv (SetImpl_remove v (impl s))" using assms(2) by (rule inv_remove)
  have sz: "Set_size (Set_remove it v s) = card (elems (impl s) - {v})"
    using assms(1) by (simp add: Set_size_def size_card[OF i1] elems_Set_remove)
  have sr: "SetImpl_size (SetImpl_remove v (impl s)) = card (elems (impl s) - {v})"
    by (simp add: size_card[OF i2] elems_remove)
  have s0: "Set_size s = card (elems (impl s))"
    by (simp add: Set_size_def size_card[OF assms(2)])
  have le: "card (elems (impl s) - {v}) \<le> card (elems (impl s))"
    by (simp add: card_Diff1_le)
  show ?thesis
    using assms(3) le
    by (auto simp: policy_settled_def kind_Set_remove kind_hash_vector sz sr s0)
qed

lemma policy_settled_new: "policy_settled Set_new"
  by (simp add: policy_settled_def Set_new_def Set_size_def SWITCH_THRESHOLD_def)

lemma policy_settled_run:
  "iteration_ok it \<Longrightarrow> SetImpl_inv (impl s) \<Longrightarrow> policy_settled s \<Longrightarrow>
   policy_settled (run it ops s)"
proof (induction ops arbitrary: s)
  case Nil
  then show ?case by (simp add: run_def)
next
  case (Cons a ops)
  have inv: "SetImpl_inv (impl (apply_operation it a s))"
    using Cons.prems by (cases a) (simp_all add: inv_Set_add inv_Set_remove)
  have st: "policy_settled (apply_operation it a s)"
    using Cons.prems by (cases a) (simp_all add: policy_settled_add policy_settled_remove)
  from Cons.IH[OF Cons.prems(1) inv st] show ?case
    by (simp add: run_def)
qed

subsection \<open>The store\<close>

lemma allocated_below: "heap_ok h \<Longrightarrow> cells h p = Some x \<Longrightarrow> p < next_free h"
  by (rule ccontr) (simp add: heap_ok_def not_less)

lemma union_frame:
  assumes "heap_ok h" and "cells h (impl_ptr A) = Some a" and "cells h (impl_ptr B) = Some b"
  shows "\<exists>R h'. Set_union_with_h it A B h = Some (R, h')
           \<and> cells h' (impl_ptr R) = Some (impl (Set_union_with it \<lparr>impl = a\<rparr> \<lparr>impl = b\<rparr>))
           \<and> cells h (impl_ptr R) = None
           \<and> (\<forall>p x. cells h p = Some x \<longrightarrow> cells h' p = Some x)
           \<and> heap_ok h'"
proof -
  have lt: "impl_ptr A < next_free h" "impl_ptr B < next_free h"
    using assms by (auto intro: allocated_below)
  have fr: "\<And>p x. cells h p = Some x \<Longrightarrow> p < next_free h"
    using assms(1) by (rule allocated_below)
  show ?thesis
    using assms lt
    by (auto simp: Set_union_with_h_def Set_new_h_def make_unique_def SetImpl_union_with_h_def
          destroy_def Set_union_with_def Set_new_def heap_ok_def dest: fr)
qed

lemma inter_frame:
  assumes "heap_ok h" and "cells h (impl_ptr A) = Some a" and "cells h (impl_ptr B) = Some b"
  shows "\<exists>R h'. Set_intersection_with_h it A B h = Some (R, h')
           \<and> cells h' (impl_ptr R)
               = Some (impl (Set_intersection_with it \<lparr>impl = a\<rparr> \<lparr>impl = b\<rparr>))
           \<and> cells h (impl_ptr R) = None
           \<and> (\<forall>p x. cells h p = Some x \<longrightarrow> cells h' p = Some x)
           \<and> heap_ok h'"
proof -
  have lt: "impl_ptr A < next_free h" "impl_ptr B < next_free h"
    using assms by (auto intro: allocated_below)
  have fr: "\<And>p x. cells h p = Some x \<Longrightarrow> p < next_free h"
    using assms(1) by (rule allocated_below)
  show ?thesis
    using assms lt
    by (auto simp: Set_intersection_with_h_def Set_new_h_def make_unique_def
          SetImpl_intersection_with_h_def destroy_def Set_intersection_with_def Set_new_def
          heap_ok_def dest: fr)
qed

lemma example_heap_built:
  "example_heap =
     snd (make_unique (VectorSetImpl [2, 3])
       (snd (make_unique (HashSetImpl {|1, 2|}) \<lparr>cells = (\<lambda>p. None), next_free = 0\<rparr>)))"
  by (simp add: example_heap_def make_unique_def fun_upd_def numeral_2_eq_2)

section \<open>The claims\<close>

subsection \<open>Migration while the set grows\<close>

text \<open>
  Claim C1, as amended. Adding \<open>0, 1, ..., n - 1\<close> one at a time to a new \<open>Set\<close> gives a
  set of size \<open>n\<close> that contains exactly these values, and it is hash-backed exactly when
  \<open>n > 20\<close>: \<open>add\<close> tests the size before it inserts, so the set is still vector-backed
  after the 20th insertion (of the value 19) and migrates, once, in the 21st insertion
  (of the value 20). For \<open>n = 25\<close> this is the first loop of \<open>main\<close>.
\<close>

theorem migration_on_growth:
  "is_HashSetImpl (impl (add_all it (map int [0..<n]) Set_new)) = (20 < n)
   \<and> is_VectorSetImpl (impl (add_all it (map int [0..<n]) Set_new)) = (n \<le> 20)
   \<and> Set_size (add_all it (map int [0..<n]) Set_new) = n
   \<and> Set_contains (add_all it (map int [0..<n]) Set_new) v = (0 \<le> v \<and> v < int n)"
  by (simp add: contains_add_upto) (simp add: add_upto Set_size_def fcard_upto del: fset_of_list_map)

theorem migration_on_growth_witness:
  "is_VectorSetImpl (impl (add_all sorted_list_of_fset (map int [0..<20]) Set_new))
   \<and> Set_size (add_all sorted_list_of_fset (map int [0..<20]) Set_new) = 20
   \<and> is_HashSetImpl (impl (add_all sorted_list_of_fset (map int [0..<21]) Set_new))
   \<and> Set_size (add_all sorted_list_of_fset (map int [0..<21]) Set_new) = 21
   \<and> Set_contains (add_all sorted_list_of_fset (map int [0..<21]) Set_new) 19
   \<and> is_HashSetImpl (impl (add_all sorted_list_of_fset (map int [0..<25]) Set_new))
   \<and> Set_size (add_all sorted_list_of_fset (map int [0..<25]) Set_new) = 25"
  using migration_on_growth[of sorted_list_of_fset 20 19]
        migration_on_growth[of sorted_list_of_fset 21 19]
        migration_on_growth[of sorted_list_of_fset 25 19]
  by simp

text \<open>The claim as written fails: after the insertion of the value 19 the set has 20
  elements and the vector is still active.\<close>

theorem hashed_after_20th_insertion_counterexample:
  "\<not> is_HashSetImpl (impl (add_all sorted_list_of_fset (map int [0..<20]) Set_new))"
  by (simp add: add_upto)

subsection \<open>No policy after union and intersection\<close>

text \<open>
  Claim C2, as amended. \<open>A.union_with(B)\<close> and \<open>A.intersection_with(B)\<close> hand the two
  active implementations to \<open>union_with\<close> and \<open>intersection_with\<close> of \<open>SetImpl\<close> and wrap
  the result in a new \<open>Set\<close>; no switching policy is applied to it, so the result is
  vector-backed exactly when \<open>A\<close> is and hash-backed exactly when \<open>A\<close> is, whatever its
  size.
\<close>

theorem set_algebra_keeps_left_variant:
  "impl (Set_union_with it A B) = SetImpl_union_with it (impl A) (impl B)
   \<and> impl (Set_intersection_with it A B) = SetImpl_intersection_with it (impl A) (impl B)
   \<and> is_VectorSetImpl (impl (Set_union_with it A B)) = is_VectorSetImpl (impl A)
   \<and> is_HashSetImpl (impl (Set_union_with it A B)) = is_HashSetImpl (impl A)
   \<and> is_VectorSetImpl (impl (Set_intersection_with it A B)) = is_VectorSetImpl (impl A)
   \<and> is_HashSetImpl (impl (Set_intersection_with it A B)) = is_HashSetImpl (impl A)"
  by (simp add: kind_Set_union kind_Set_inter kind_hash_vector)
     (simp add: Set_union_with_def Set_intersection_with_def)

text \<open>The claim as written fails on the sets of \<open>main\<close>: the union with the small set on
  the left is vector-backed with 27 elements, and the intersection with the large set on
  the left is hash-backed with 2 elements.\<close>

theorem policy_after_set_algebra_counterexample:
  "\<not> policy_settled (Set_union_with sorted_list_of_fset
        (add_all sorted_list_of_fset [10, 20, 25, 30] Set_new)
        (add_all sorted_list_of_fset (map int [0..<25]) Set_new))
   \<and> \<not> policy_settled (Set_intersection_with sorted_list_of_fset
        (add_all sorted_list_of_fset (map int [0..<25]) Set_new)
        (add_all sorted_list_of_fset [10, 20, 25, 30] Set_new))"
proof -
  let ?A = "add_all sorted_list_of_fset (map int [0..<25]) Set_new"
  let ?B = "add_all sorted_list_of_fset [10, 20, 25, 30] Set_new"
  have u1: "is_VectorSetImpl (impl (Set_union_with sorted_list_of_fset ?B ?A))"
    by (simp add: kind_Set_union main_s2)
  have u2: "Set_size (Set_union_with sorted_list_of_fset ?B ?A) = 27"
    by (simp only: size_Set_union[OF iteration_ok_sorted] main_s1 main_s2_facts
          example_union_comm card_example_union)
  have i1: "is_HashSetImpl (impl (Set_intersection_with sorted_list_of_fset ?A ?B))"
    by (simp add: kind_hash_vector kind_Set_inter add_upto)
  have "card {10, 20::int} = 2" by simp
  then have i2: "Set_size (Set_intersection_with sorted_list_of_fset ?A ?B) = 2"
    by (simp only: size_Set_inter[OF iteration_ok_sorted] main_s1 main_s2_facts example_inter)
  show ?thesis
    using u1 u2 i1 i2 by (simp add: policy_settled_def SWITCH_THRESHOLD_def)
qed

subsection \<open>The union and intersection of \<open>main\<close>\<close>

text \<open>
  Claim C3, as amended. Let \<open>A\<close> be hash-backed and contain exactly \<open>0, ..., 24\<close> (size
  25), and let \<open>B\<close> be vector-backed and contain exactly \<open>10, 20, 25, 30\<close> (size 4). Then
  \<open>A.union_with(B)\<close> has size 27 (the 25 values of \<open>A\<close> and the two values 25 and 30 of
  \<open>B\<close> that are not in \<open>A\<close>) and contains exactly the values of \<open>A\<close> and of \<open>B\<close>;
  \<open>A.intersection_with(B)\<close> has size 2 and contains exactly 10 and 20.
\<close>

theorem union_intersection_example:
  assumes "iteration_ok it"
      and "is_HashSetImpl (impl A)" and "\<forall>v. Set_contains A v = (0 \<le> v \<and> v \<le> 24)"
      and "is_VectorSetImpl (impl B)" and "\<forall>v. Set_contains B v = (v \<in> {10, 20, 25, 30})"
      and "Set_size B = 4"
  shows "Set_size A = 25
       \<and> Set_size (Set_union_with it A B) = 27
       \<and> (Set_contains (Set_union_with it A B) v = (Set_contains A v \<or> Set_contains B v))
       \<and> Set_size (Set_intersection_with it A B) = 2
       \<and> (Set_contains (Set_intersection_with it A B) v = (v = 10 \<or> v = 20))"
proof -
  have "\<And>v. (v \<in> elems (impl A)) = (v \<in> {0..24})"
    using assms(3) by (simp add: Set_contains_def contains_elems)
  then have eA: "elems (impl A) = {0..24}"
    by (rule set_eqI)
  have "\<And>v. (v \<in> elems (impl B)) = (v \<in> {10, 20, 25, 30})"
    using assms(5) by (simp only: Set_contains_def contains_elems)
  then have eB: "elems (impl B) = {10, 20, 25, 30}"
    by (rule set_eqI)
  have iA: "SetImpl_inv (impl A)" using assms(2) by (rule hash_inv)
  have iB: "SetImpl_inv (impl B)"
  proof (rule vector_inv[OF assms(4)])
    have "card {10, 20, 25, 30::int} = 4" by simp
    then show "SetImpl_size (impl B) = card (elems (impl B))"
      using assms(6) by (simp only: eB Set_size_def)
  qed
  have iU: "SetImpl_inv (impl (Set_union_with it A B))"
    using assms(1) iA iB by (rule inv_Set_union)
  have iI: "SetImpl_inv (impl (Set_intersection_with it A B))"
    using iA by (rule inv_Set_inter)
  have eU: "elems (impl (Set_union_with it A B)) = {0..24} \<union> {10, 20, 25, 30}"
    by (simp only: elems_Set_union[OF assms(1)] eA eB)
  have eI: "elems (impl (Set_intersection_with it A B)) = {10, 20}"
    by (simp only: elems_Set_inter[OF assms(1)] eA eB example_inter)
  have 1: "Set_size A = 25"
    by (simp add: Set_size_def size_card[OF iA] eA)
  have 2: "Set_size (Set_union_with it A B) = 27"
    by (simp only: Set_size_def size_card[OF iU] eU card_example_union)
  have 3: "Set_contains (Set_union_with it A B) v = (Set_contains A v \<or> Set_contains B v)"
    by (simp only: Set_contains_def contains_elems elems_Set_union[OF assms(1)] Un_iff)
  have 4: "Set_size (Set_intersection_with it A B) = 2"
    by (simp add: Set_size_def size_card[OF iI] eI)
  have 5: "Set_contains (Set_intersection_with it A B) v = (v = 10 \<or> v = 20)"
    by (simp add: Set_contains_def contains_elems eI)
  from 1 2 3 4 5 show ?thesis by blast
qed

theorem union_intersection_example_witness:
  "Set_size (add_all sorted_list_of_fset (map int [0..<25]) Set_new) = 25
   \<and> Set_size (Set_union_with sorted_list_of_fset
         (add_all sorted_list_of_fset (map int [0..<25]) Set_new)
         (add_all sorted_list_of_fset [10, 20, 25, 30] Set_new)) = 27
   \<and> Set_contains (Set_union_with sorted_list_of_fset
         (add_all sorted_list_of_fset (map int [0..<25]) Set_new)
         (add_all sorted_list_of_fset [10, 20, 25, 30] Set_new)) 30
   \<and> Set_size (Set_intersection_with sorted_list_of_fset
         (add_all sorted_list_of_fset (map int [0..<25]) Set_new)
         (add_all sorted_list_of_fset [10, 20, 25, 30] Set_new)) = 2
   \<and> Set_contains (Set_intersection_with sorted_list_of_fset
         (add_all sorted_list_of_fset (map int [0..<25]) Set_new)
         (add_all sorted_list_of_fset [10, 20, 25, 30] Set_new)) 20"
proof -
  let ?A = "add_all sorted_list_of_fset (map int [0..<25]) Set_new"
  let ?B = "add_all sorted_list_of_fset [10, 20, 25, 30] Set_new"
  have a1: "is_HashSetImpl (impl ?A)" by (simp add: main_s1)
  have a2: "\<forall>v. Set_contains ?A v = (0 \<le> v \<and> v \<le> 24)"
    by (simp add: Set_contains_def contains_elems main_s1)
  have b1: "is_VectorSetImpl (impl ?B)" by (simp add: main_s2)
  have b2: "\<forall>v. Set_contains ?B v = (v \<in> {10, 20, 25, 30})"
    by (simp add: Set_contains_def main_s2)
  have b3: "Set_size ?B = 4" by (simp add: Set_size_def main_s2)
  have b4: "Set_contains ?B 30" by (simp add: Set_contains_def main_s2)
  show ?thesis
    using union_intersection_example[OF iteration_ok_sorted a1 a2 b1 b2 b3, of 30]
          union_intersection_example[OF iteration_ok_sorted a1 a2 b1 b2 b3, of 20] b4
    by simp
qed

text \<open>The claim as written gives the union the size 26; on the two sets that \<open>main\<close>
  builds it is 27.\<close>

theorem union_size_26_counterexample:
  "Set_size (Set_union_with sorted_list_of_fset
      (add_all sorted_list_of_fset (map int [0..<25]) Set_new)
      (add_all sorted_list_of_fset [10, 20, 25, 30] Set_new)) \<noteq> 26"
proof -
  have "Set_size (Set_union_with sorted_list_of_fset
      (add_all sorted_list_of_fset (map int [0..<25]) Set_new)
      (add_all sorted_list_of_fset [10, 20, 25, 30] Set_new)) = 27"
    by (simp only: size_Set_union[OF iteration_ok_sorted] main_s1 main_s2_facts card_example_union)
  then show ?thesis by simp
qed

subsection \<open>Membership against the reference set\<close>

text \<open>
  Claim C4. For every finite sequence of \<open>add\<close>/\<open>remove\<close> calls on a newly constructed
  \<open>Set\<close> and every integer \<open>v\<close>, \<open>contains(v)\<close> afterwards is membership of \<open>v\<close> in the
  reference set (add as insertion, remove as deletion), and \<open>size()\<close> is the cardinality
  of the reference set.
\<close>

theorem membership_invariant:
  assumes "iteration_ok it"
  shows "Set_contains (run it ops Set_new) v = (v \<in> reference ops)
       \<and> Set_size (run it ops Set_new) = card (reference ops)"
proof -
  have "SetImpl_inv (impl Set_new)" by (simp add: Set_new_def)
  from run_abstraction[OF assms this, of ops]
  show ?thesis
    by (simp add: Set_contains_def Set_size_def contains_elems size_card reference_def Set_new_def)
qed

theorem membership_invariant_witness:
  "Set_contains (run sorted_list_of_fset [Add 1, Add 2, Remove 1, Add 2] Set_new) 2
   \<and> \<not> Set_contains (run sorted_list_of_fset [Add 1, Add 2, Remove 1, Add 2] Set_new) 1
   \<and> Set_size (run sorted_list_of_fset [Add 1, Add 2, Remove 1, Add 2] Set_new) = 1"
  using membership_invariant[OF iteration_ok_sorted, of "[Add 1, Add 2, Remove 1, Add 2]" 2]
        membership_invariant[OF iteration_ok_sorted, of "[Add 1, Add 2, Remove 1, Add 2]" 1]
  by (simp add: reference_def insert_Diff_if)

subsection \<open>Removal and the migration to the vector\<close>

text \<open>
  Claim C5. \<open>remove(v)\<close> removes from the active implementation first: afterwards the
  set contains \<open>w\<close> exactly when it did before and \<open>w \<noteq> v\<close>. If the hash set was active
  and the size after the removal is at most 20, the result is vector-backed with that
  size; otherwise the result is the implementation after the removal, with no migration.
  In particular, removing two distinct members \<open>a\<close>, \<open>b\<close> from a hash-backed set of size
  21 gives a vector-backed set of size 20 and then of size 19, which contains exactly
  the other members.
\<close>

theorem remove_then_migrate:
  assumes "iteration_ok it"
  shows "Set_contains (Set_remove it v s) w = (Set_contains s w \<and> w \<noteq> v)
       \<and> (is_HashSetImpl (impl s) \<and> SetImpl_size (SetImpl_remove v (impl s)) \<le> 20 \<longrightarrow>
            is_VectorSetImpl (impl (Set_remove it v s))
          \<and> Set_size (Set_remove it v s) = SetImpl_size (SetImpl_remove v (impl s)))
       \<and> (\<not> (is_HashSetImpl (impl s) \<and> SetImpl_size (SetImpl_remove v (impl s)) \<le> 20) \<longrightarrow>
            impl (Set_remove it v s) = SetImpl_remove v (impl s))
       \<and> (is_HashSetImpl (impl s) \<and> Set_size s = 21 \<and> Set_contains s a \<and> Set_contains s b
            \<and> a \<noteq> b \<longrightarrow>
            is_VectorSetImpl (impl (Set_remove it a s))
          \<and> Set_size (Set_remove it a s) = 20
          \<and> is_VectorSetImpl (impl (Set_remove it b (Set_remove it a s)))
          \<and> Set_size (Set_remove it b (Set_remove it a s)) = 19
          \<and> Set_contains (Set_remove it b (Set_remove it a s)) w
              = (Set_contains s w \<and> w \<noteq> a \<and> w \<noteq> b))"
proof -
  have c: "\<And>v (s::Set_t). Set_contains (Set_remove it v s) w = (Set_contains s w \<and> w \<noteq> v)"
    using assms by (auto simp: Set_contains_def contains_elems elems_Set_remove)
  have hash_inv: "\<And>r. is_HashSetImpl r \<Longrightarrow> SetImpl_inv r"
    subgoal for r by (cases r) auto done
  have m: "\<And>v (s::Set_t). is_HashSetImpl (impl s) \<and> SetImpl_size (SetImpl_remove v (impl s)) \<le> 20 \<longrightarrow>
            is_VectorSetImpl (impl (Set_remove it v s))
          \<and> Set_size (Set_remove it v s) = SetImpl_size (SetImpl_remove v (impl s))"
  proof (intro impI)
    fix v and s :: Set_t
    assume h: "is_HashSetImpl (impl s) \<and> SetImpl_size (SetImpl_remove v (impl s)) \<le> 20"
    then have k: "is_VectorSetImpl (impl (Set_remove it v s))"
      by (cases "impl s")
         (auto simp: Set_remove_def SWITCH_THRESHOLD_def switch_to_vector_def kind_fold_add)
    have i0: "SetImpl_inv (impl s)" using h by (simp add: hash_inv)
    have i1: "SetImpl_inv (SetImpl_remove v (impl s))" using i0 by (rule inv_remove)
    have i2: "SetImpl_inv (impl (Set_remove it v s))" using i0 by (rule inv_Set_remove)
    have "Set_size (Set_remove it v s) = SetImpl_size (SetImpl_remove v (impl s))"
      using assms
      by (simp add: Set_size_def size_card[OF i1] size_card[OF i2] elems_Set_remove elems_remove)
    with k show "is_VectorSetImpl (impl (Set_remove it v s))
          \<and> Set_size (Set_remove it v s) = SetImpl_size (SetImpl_remove v (impl s))"
      by simp
  qed
  have n: "\<And>v (s::Set_t).
            \<not> (is_HashSetImpl (impl s) \<and> SetImpl_size (SetImpl_remove v (impl s)) \<le> 20) \<longrightarrow>
            impl (Set_remove it v s) = SetImpl_remove v (impl s)"
    subgoal for v s
      by (cases "impl s") (auto simp: Set_remove_def SWITCH_THRESHOLD_def)
    done
  have p: "is_HashSetImpl (impl s) \<and> Set_size s = 21 \<and> Set_contains s a \<and> Set_contains s b
            \<and> a \<noteq> b \<longrightarrow>
            is_VectorSetImpl (impl (Set_remove it a s))
          \<and> Set_size (Set_remove it a s) = 20
          \<and> is_VectorSetImpl (impl (Set_remove it b (Set_remove it a s)))
          \<and> Set_size (Set_remove it b (Set_remove it a s)) = 19
          \<and> Set_contains (Set_remove it b (Set_remove it a s)) w
              = (Set_contains s w \<and> w \<noteq> a \<and> w \<noteq> b)"
  proof (intro impI)
    assume h: "is_HashSetImpl (impl s) \<and> Set_size s = 21 \<and> Set_contains s a \<and> Set_contains s b
            \<and> a \<noteq> b"
    let ?s1 = "Set_remove it a s"
    let ?s2 = "Set_remove it b ?s1"
    have i0: "SetImpl_inv (impl s)" using h by (simp add: hash_inv)
    have i1: "SetImpl_inv (impl ?s1)" using i0 by (rule inv_Set_remove)
    have i2: "SetImpl_inv (impl ?s2)" using i1 by (rule inv_Set_remove)
    have c0: "card (elems (impl s)) = 21" "a \<in> elems (impl s)" "b \<in> elems (impl s)"
      using h by (simp_all add: Set_size_def Set_contains_def size_card[OF i0] contains_elems)
    have fin: "finite (elems (impl s))"
      using c0(1) by (simp add: card_ge_0_finite)
    have s1: "SetImpl_size (SetImpl_remove a (impl s)) = 20"
      using c0 by (simp add: size_card[OF inv_remove[OF i0]] elems_remove)
    have k1: "is_VectorSetImpl (impl ?s1)" "Set_size ?s1 = 20"
      using m[of s a] h s1 by simp_all
    have z2: "Set_size ?s2 = 19"
      using assms c0 h fin
      by (simp add: Set_size_def size_card[OF i2] elems_Set_remove)
    have k2: "is_VectorSetImpl (impl ?s2)"
      using n[of ?s1 b] k1(1) by (simp add: kind_hash_vector kind_remove)
    show "is_VectorSetImpl (impl ?s1) \<and> Set_size ?s1 = 20 \<and> is_VectorSetImpl (impl ?s2)
          \<and> Set_size ?s2 = 19
          \<and> Set_contains ?s2 w = (Set_contains s w \<and> w \<noteq> a \<and> w \<noteq> b)"
      using k1 k2 z2 c by auto
  qed
  from c m n p show ?thesis by blast
qed

theorem remove_then_migrate_witness:
  "is_VectorSetImpl
     (impl (Set_remove sorted_list_of_fset 0 (add_all sorted_list_of_fset (map int [0..<21]) Set_new)))
   \<and> Set_size (Set_remove sorted_list_of_fset 0
        (add_all sorted_list_of_fset (map int [0..<21]) Set_new)) = 20
   \<and> is_VectorSetImpl
     (impl (Set_remove sorted_list_of_fset 1
        (Set_remove sorted_list_of_fset 0 (add_all sorted_list_of_fset (map int [0..<21]) Set_new))))
   \<and> Set_size (Set_remove sorted_list_of_fset 1
        (Set_remove sorted_list_of_fset 0 (add_all sorted_list_of_fset (map int [0..<21]) Set_new))) = 19
   \<and> Set_contains (Set_remove sorted_list_of_fset 1
        (Set_remove sorted_list_of_fset 0 (add_all sorted_list_of_fset (map int [0..<21]) Set_new))) 7
   \<and> \<not> Set_contains (Set_remove sorted_list_of_fset 1
        (Set_remove sorted_list_of_fset 0 (add_all sorted_list_of_fset (map int [0..<21]) Set_new))) 1"
proof -
  have h: "is_HashSetImpl (impl (add_all sorted_list_of_fset (map int [0..<21]) Set_new))
         \<and> Set_size (add_all sorted_list_of_fset (map int [0..<21]) Set_new) = 21
         \<and> Set_contains (add_all sorted_list_of_fset (map int [0..<21]) Set_new) 0
         \<and> Set_contains (add_all sorted_list_of_fset (map int [0..<21]) Set_new) 1
         \<and> Set_contains (add_all sorted_list_of_fset (map int [0..<21]) Set_new) 7
         \<and> (0::int) \<noteq> 1"
    by (simp add: add_upto Set_size_def Set_contains_def fcard_upto fset_of_list_elem del: fset_of_list_map)
  show ?thesis
    using remove_then_migrate[OF iteration_ok_sorted,
            of 0 "add_all sorted_list_of_fset (map int [0..<21]) Set_new" 7 0 1]
          remove_then_migrate[OF iteration_ok_sorted,
            of 0 "add_all sorted_list_of_fset (map int [0..<21]) Set_new" 1 0 1] h
    by simp
qed

subsection \<open>Idempotence\<close>

text \<open>
  Claim C6. On both implementations, adding \<open>v\<close> twice gives the state of adding it once,
  and removing an absent \<open>v\<close> changes nothing. On a \<open>Set\<close> (whose vector, if any, stores
  no value twice, as in every state the class can reach), adding \<open>v\<close> twice gives the
  same \<open>contains\<close> and \<open>size()\<close> as adding it once, and removing an absent \<open>v\<close> leaves
  \<open>contains\<close> and \<open>size()\<close> as they were.
\<close>

theorem idempotence:
  assumes "iteration_ok it" and "SetImpl_inv (impl s)"
  shows "SetImpl_add v (SetImpl_add v r) = SetImpl_add v r
       \<and> (\<not> SetImpl_contains r v \<longrightarrow> SetImpl_remove v r = r)
       \<and> Set_contains (Set_add it v (Set_add it v s)) w = Set_contains (Set_add it v s) w
       \<and> Set_size (Set_add it v (Set_add it v s)) = Set_size (Set_add it v s)
       \<and> (\<not> Set_contains s v \<longrightarrow>
             Set_contains (Set_remove it v s) w = Set_contains s w
           \<and> Set_size (Set_remove it v s) = Set_size s)"
proof -
  have 1: "SetImpl_add v (SetImpl_add v r) = SetImpl_add v r"
    by (cases r) auto
  have 2: "\<not> SetImpl_contains r v \<longrightarrow> SetImpl_remove v r = r"
    by (cases r) auto
  have i1: "SetImpl_inv (impl (Set_add it v s))"
    using assms(2) by (rule inv_Set_add)
  have i2: "SetImpl_inv (impl (Set_add it v (Set_add it v s)))"
    using i1 by (rule inv_Set_add)
  have i3: "SetImpl_inv (impl (Set_remove it v s))"
    using assms(2) by (rule inv_Set_remove)
  have 3: "Set_contains (Set_add it v (Set_add it v s)) w = Set_contains (Set_add it v s) w"
    by (simp add: Set_contains_def contains_elems elems_Set_add)
  have 4: "Set_size (Set_add it v (Set_add it v s)) = Set_size (Set_add it v s)"
    by (simp add: Set_size_def size_card[OF i1] size_card[OF i2] elems_Set_add)
  have 5: "\<not> Set_contains s v \<longrightarrow>
             Set_contains (Set_remove it v s) w = Set_contains s w
           \<and> Set_size (Set_remove it v s) = Set_size s"
    using assms(1)
    by (auto simp add: Set_contains_def Set_size_def contains_elems size_card[OF i3]
          size_card[OF assms(2)] elems_Set_remove)
  from 1 2 3 4 5 show ?thesis by blast
qed

theorem idempotence_witness:
  "SetImpl_add 4 (SetImpl_add 4 (HashSetImpl {|1, 2|})) = SetImpl_add 4 (HashSetImpl {|1, 2|})
   \<and> SetImpl_remove 4 (VectorSetImpl [1, 2]) = VectorSetImpl [1, 2]
   \<and> Set_size (Set_add sorted_list_of_fset 4 (Set_add sorted_list_of_fset 4 Set_new))
       = Set_size (Set_add sorted_list_of_fset 4 Set_new)
   \<and> Set_contains (Set_remove sorted_list_of_fset 4 Set_new) 4 = Set_contains Set_new 4
   \<and> Set_size (Set_remove sorted_list_of_fset 4 Set_new) = Set_size Set_new"
proof -
  have i: "SetImpl_inv (impl Set_new)" by (simp add: Set_new_def)
  have a: "\<not> Set_contains Set_new 4" by (simp add: Set_new_def Set_contains_def)
  have b: "\<not> SetImpl_contains (VectorSetImpl [1, 2]) 4" by simp
  show ?thesis
    using idempotence[OF iteration_ok_sorted i, of 4 "HashSetImpl {|1, 2|}" 4]
          idempotence[OF iteration_ok_sorted i, of 4 "VectorSetImpl [1, 2]" 4] a b
    by blast
qed

subsection \<open>Union and intersection of two implementations\<close>

text \<open>
  Claim C7. For implementations \<open>l\<close> and \<open>r\<close> of any two kinds, \<open>l.union_with(r)\<close> and
  \<open>l.intersection_with(r)\<close> are of the kind of the left operand \<open>l\<close>; they contain \<open>v\<close>
  exactly when \<open>l\<close> or \<open>r\<close> (respectively \<open>l\<close> and \<open>r\<close>) contains it; and the right operand
  enters only through \<open>get_elements\<close> (union) and \<open>contains\<close> (intersection): two right
  operands that agree on it give the same result.
\<close>

theorem representation_union_intersection:
  assumes "iteration_ok it"
  shows "is_VectorSetImpl (SetImpl_union_with it l r) = is_VectorSetImpl l
       \<and> is_HashSetImpl (SetImpl_union_with it l r) = is_HashSetImpl l
       \<and> is_VectorSetImpl (SetImpl_intersection_with it l r) = is_VectorSetImpl l
       \<and> is_HashSetImpl (SetImpl_intersection_with it l r) = is_HashSetImpl l
       \<and> SetImpl_contains (SetImpl_union_with it l r) v
           = (SetImpl_contains l v \<or> SetImpl_contains r v)
       \<and> SetImpl_contains (SetImpl_intersection_with it l r) v
           = (SetImpl_contains l v \<and> SetImpl_contains r v)
       \<and> (get_elements it r = get_elements it r' \<longrightarrow>
            SetImpl_union_with it l r = SetImpl_union_with it l r')
       \<and> (SetImpl_contains r = SetImpl_contains r' \<longrightarrow>
            SetImpl_intersection_with it l r = SetImpl_intersection_with it l r')"
proof -
  have "get_elements it r = get_elements it r' \<longrightarrow>
            SetImpl_union_with it l r = SetImpl_union_with it l r'"
    by (cases l) auto
  moreover have "SetImpl_contains r = SetImpl_contains r' \<longrightarrow>
            SetImpl_intersection_with it l r = SetImpl_intersection_with it l r'"
    by (cases l) auto
  ultimately show ?thesis
    using assms
    by (simp add: kind_union kind_inter kind_hash_vector contains_elems elems_union elems_inter)
qed

theorem representation_union_intersection_witness:
  "is_HashSetImpl (SetImpl_union_with sorted_list_of_fset (HashSetImpl {|1, 2|}) (VectorSetImpl [2, 3]))
   \<and> is_VectorSetImpl (SetImpl_intersection_with sorted_list_of_fset (VectorSetImpl [2, 3]) (HashSetImpl {|1, 2|}))
   \<and> SetImpl_contains (SetImpl_union_with sorted_list_of_fset (HashSetImpl {|1, 2|}) (VectorSetImpl [2, 3])) 3
   \<and> \<not> SetImpl_contains (SetImpl_intersection_with sorted_list_of_fset (VectorSetImpl [2, 3]) (HashSetImpl {|1, 2|})) 3
   \<and> SetImpl_union_with sorted_list_of_fset (HashSetImpl {|1, 2|}) (VectorSetImpl [2, 3])
       = SetImpl_union_with sorted_list_of_fset (HashSetImpl {|1, 2|}) (SetImpl_clone (VectorSetImpl [2, 3]))"
  using representation_union_intersection[OF iteration_ok_sorted,
          of "HashSetImpl {|1, 2|}" "VectorSetImpl [2, 3]" 3 "SetImpl_clone (VectorSetImpl [2, 3])"]
        representation_union_intersection[OF iteration_ok_sorted,
          of "VectorSetImpl [2, 3]" "HashSetImpl {|1, 2|}" 3 "HashSetImpl {|1, 2|}"]
  by simp

subsection \<open>The invariant of the implementations\<close>

text \<open>
  Claim C8. Both implementations keep the invariant that no value is listed twice and
  that \<open>size()\<close> is the number of distinct values: it holds of the two empty
  implementations and is kept by \<open>add\<close>, \<open>remove\<close>, \<open>clone\<close>, \<open>union_with\<close>,
  \<open>intersection_with\<close> and by the two migrations, and so by every operation of \<open>Set\<close>.
\<close>

theorem representation_invariant:
  assumes "iteration_ok it" and "rep_invariant it r" and "rep_invariant it r'"
      and "rep_invariant it (impl s)" and "rep_invariant it (impl s')"
  shows "rep_invariant it (VectorSetImpl []) \<and> rep_invariant it (HashSetImpl {||})
       \<and> rep_invariant it (SetImpl_add v r)
       \<and> rep_invariant it (SetImpl_remove v r)
       \<and> rep_invariant it (SetImpl_clone r)
       \<and> rep_invariant it (SetImpl_union_with it r r')
       \<and> rep_invariant it (SetImpl_intersection_with it r r')
       \<and> rep_invariant it (impl (switch_to_hash it s))
       \<and> rep_invariant it (impl (switch_to_vector it s))
       \<and> rep_invariant it (impl (Set_add it v s))
       \<and> rep_invariant it (impl (Set_remove it v s))
       \<and> rep_invariant it (impl (Set_union_with it s s'))
       \<and> rep_invariant it (impl (Set_intersection_with it s s'))"
proof -
  note ri = rep_invariant_iff[OF assms(1)]
  have a: "SetImpl_inv r" "SetImpl_inv r'" "SetImpl_inv (impl s)" "SetImpl_inv (impl s')"
    using assms by (simp_all add: ri)
  have "SetImpl_inv (SetImpl_clone r)" using a by (cases r) auto
  moreover have "SetImpl_inv (impl (switch_to_hash it s))"
    by (simp add: switch_to_hash_def inv_fold_add)
  moreover have "SetImpl_inv (impl (switch_to_vector it s))"
    by (simp add: switch_to_vector_def inv_fold_add)
  moreover have "SetImpl_inv (impl (Set_union_with it s s'))"
    "SetImpl_inv (impl (Set_intersection_with it s s'))"
    using a assms(1) by (simp_all add: Set_union_with_def Set_intersection_with_def inv_union inv_inter)
  ultimately show ?thesis
    using a assms(1)
    by (simp add: ri inv_add inv_remove inv_union inv_inter inv_Set_add inv_Set_remove)
qed

theorem representation_invariant_witness:
  "rep_invariant sorted_list_of_fset (SetImpl_add 3 (VectorSetImpl [1, 2]))
   \<and> rep_invariant sorted_list_of_fset (SetImpl_remove 1 (VectorSetImpl [1, 2]))
   \<and> rep_invariant sorted_list_of_fset
        (SetImpl_union_with sorted_list_of_fset (VectorSetImpl [1, 2]) (HashSetImpl {|2, 5|}))
   \<and> rep_invariant sorted_list_of_fset
        (SetImpl_intersection_with sorted_list_of_fset (VectorSetImpl [1, 2]) (HashSetImpl {|2, 5|}))
   \<and> rep_invariant sorted_list_of_fset
        (impl (switch_to_hash sorted_list_of_fset \<lparr>impl = VectorSetImpl [1, 2]\<rparr>))
   \<and> rep_invariant sorted_list_of_fset
        (impl (switch_to_vector sorted_list_of_fset \<lparr>impl = HashSetImpl {|2, 5|}\<rparr>))"
proof -
  have v: "rep_invariant sorted_list_of_fset (VectorSetImpl [1, 2])"
    by (simp add: rep_invariant_def)
  have h: "rep_invariant sorted_list_of_fset (HashSetImpl {|2, 5|})"
    by (simp add: rep_invariant_iff[OF iteration_ok_sorted])
  have v': "rep_invariant sorted_list_of_fset (impl \<lparr>impl = VectorSetImpl [1, 2]\<rparr>)"
    using v by simp
  have h': "rep_invariant sorted_list_of_fset (impl \<lparr>impl = HashSetImpl {|2, 5|}\<rparr>)"
    using h by simp
  show ?thesis
    using representation_invariant[OF iteration_ok_sorted v h v' h', of 3]
          representation_invariant[OF iteration_ok_sorted v h v' h', of 1]
          representation_invariant[OF iteration_ok_sorted v h h' v', of 1]
    by simp
qed

subsection \<open>Union and intersection leave their operands alone\<close>

text \<open>
  Claim C9. In a store where \<open>A\<close> and \<open>B\<close> point to implementations \<open>a\<close> and \<open>b\<close> (the
  same object when \<open>A\<close> and \<open>B\<close> are the same set), \<open>A.union_with(B)\<close> and
  \<open>A.intersection_with(B)\<close> return a new set whose implementation lives at an address
  that was unused before and differs from those of \<open>A\<close> and \<open>B\<close>; afterwards \<open>A\<close> and
  \<open>B\<close> still point to \<open>a\<close> and \<open>b\<close>, so their elements, sizes and kinds are as before,
  and so is every other object of the store. The new object holds the union
  (intersection) computed from \<open>a\<close> and \<open>b\<close>.
\<close>

theorem set_algebra_leaves_operands:
  assumes "heap_ok h" and "cells h (impl_ptr A) = Some a" and "cells h (impl_ptr B) = Some b"
  shows "(\<exists>R h'. Set_union_with_h it A B h = Some (R, h')
           \<and> cells h' (impl_ptr A) = Some a \<and> cells h' (impl_ptr B) = Some b
           \<and> impl_ptr R \<noteq> impl_ptr A \<and> impl_ptr R \<noteq> impl_ptr B
           \<and> cells h (impl_ptr R) = None
           \<and> cells h' (impl_ptr R) = Some (impl (Set_union_with it \<lparr>impl = a\<rparr> \<lparr>impl = b\<rparr>))
           \<and> (\<forall>p x. cells h p = Some x \<longrightarrow> cells h' p = Some x))
       \<and> (\<exists>R h'. Set_intersection_with_h it A B h = Some (R, h')
           \<and> cells h' (impl_ptr A) = Some a \<and> cells h' (impl_ptr B) = Some b
           \<and> impl_ptr R \<noteq> impl_ptr A \<and> impl_ptr R \<noteq> impl_ptr B
           \<and> cells h (impl_ptr R) = None
           \<and> cells h' (impl_ptr R)
               = Some (impl (Set_intersection_with it \<lparr>impl = a\<rparr> \<lparr>impl = b\<rparr>))
           \<and> (\<forall>p x. cells h p = Some x \<longrightarrow> cells h' p = Some x))"
proof
  from union_frame[OF assms, of it] obtain R h' where
    u: "Set_union_with_h it A B h = Some (R, h')"
       "cells h' (impl_ptr R) = Some (impl (Set_union_with it \<lparr>impl = a\<rparr> \<lparr>impl = b\<rparr>))"
       "cells h (impl_ptr R) = None"
       "\<forall>p x. cells h p = Some x \<longrightarrow> cells h' p = Some x"
    by blast
  have "cells h' (impl_ptr A) = Some a" "cells h' (impl_ptr B) = Some b"
    using u(4) assms(2,3) by blast+
  moreover have "impl_ptr R \<noteq> impl_ptr A" "impl_ptr R \<noteq> impl_ptr B"
    using u(3) assms(2,3) by auto
  ultimately show "\<exists>R h'. Set_union_with_h it A B h = Some (R, h')
           \<and> cells h' (impl_ptr A) = Some a \<and> cells h' (impl_ptr B) = Some b
           \<and> impl_ptr R \<noteq> impl_ptr A \<and> impl_ptr R \<noteq> impl_ptr B
           \<and> cells h (impl_ptr R) = None
           \<and> cells h' (impl_ptr R) = Some (impl (Set_union_with it \<lparr>impl = a\<rparr> \<lparr>impl = b\<rparr>))
           \<and> (\<forall>p x. cells h p = Some x \<longrightarrow> cells h' p = Some x)"
    using u by blast
next
  from inter_frame[OF assms, of it] obtain R h' where
    u: "Set_intersection_with_h it A B h = Some (R, h')"
       "cells h' (impl_ptr R)
          = Some (impl (Set_intersection_with it \<lparr>impl = a\<rparr> \<lparr>impl = b\<rparr>))"
       "cells h (impl_ptr R) = None"
       "\<forall>p x. cells h p = Some x \<longrightarrow> cells h' p = Some x"
    by blast
  have "cells h' (impl_ptr A) = Some a" "cells h' (impl_ptr B) = Some b"
    using u(4) assms(2,3) by blast+
  moreover have "impl_ptr R \<noteq> impl_ptr A" "impl_ptr R \<noteq> impl_ptr B"
    using u(3) assms(2,3) by auto
  ultimately show "\<exists>R h'. Set_intersection_with_h it A B h = Some (R, h')
           \<and> cells h' (impl_ptr A) = Some a \<and> cells h' (impl_ptr B) = Some b
           \<and> impl_ptr R \<noteq> impl_ptr A \<and> impl_ptr R \<noteq> impl_ptr B
           \<and> cells h (impl_ptr R) = None
           \<and> cells h' (impl_ptr R)
               = Some (impl (Set_intersection_with it \<lparr>impl = a\<rparr> \<lparr>impl = b\<rparr>))
           \<and> (\<forall>p x. cells h p = Some x \<longrightarrow> cells h' p = Some x)"
    using u by blast
qed

theorem set_algebra_leaves_operands_witness:
  "(\<exists>R h'. Set_union_with_h sorted_list_of_fset \<lparr>impl_ptr = 0\<rparr> \<lparr>impl_ptr = 1\<rparr> example_heap
              = Some (R, h')
        \<and> cells h' 0 = Some (HashSetImpl {|1, 2|}) \<and> cells h' 1 = Some (VectorSetImpl [2, 3])
        \<and> impl_ptr R \<noteq> 0 \<and> impl_ptr R \<noteq> 1
        \<and> map_option (\<lambda>r. SetImpl_contains r 3) (cells h' (impl_ptr R)) = Some True)
   \<and> (\<exists>R h'. Set_intersection_with_h sorted_list_of_fset \<lparr>impl_ptr = 1\<rparr> \<lparr>impl_ptr = 1\<rparr>
                example_heap = Some (R, h')
        \<and> cells h' 1 = Some (VectorSetImpl [2, 3])
        \<and> impl_ptr R \<noteq> 1
        \<and> cells h' (impl_ptr R) = Some (VectorSetImpl [2, 3]))"
proof -
  have ok: "heap_ok example_heap"
    by (simp add: heap_ok_def example_heap_def)
  have a: "cells example_heap (impl_ptr \<lparr>impl_ptr = 0\<rparr>) = Some (HashSetImpl {|1, 2|})"
    by (simp add: example_heap_def)
  have b: "cells example_heap (impl_ptr \<lparr>impl_ptr = 1\<rparr>) = Some (VectorSetImpl [2, 3])"
    by (simp add: example_heap_def)
  have u: "SetImpl_contains (impl (Set_union_with sorted_list_of_fset
              \<lparr>impl = HashSetImpl {|1, 2|}\<rparr> \<lparr>impl = VectorSetImpl [2, 3]\<rparr>)) 3"
    by (simp add: Set_union_with_def)
  have i: "impl (Set_intersection_with sorted_list_of_fset
              \<lparr>impl = VectorSetImpl [2, 3]\<rparr> \<lparr>impl = VectorSetImpl [2, 3]\<rparr>) = VectorSetImpl [2, 3]"
    by (simp add: Set_intersection_with_def)
  show ?thesis
    using set_algebra_leaves_operands[OF ok a b, of sorted_list_of_fset]
          set_algebra_leaves_operands[OF ok b b, of sorted_list_of_fset] u i
    by (simp del: ex_simps) blast
qed

subsection \<open>The policy runs on calls that change nothing\<close>

text \<open>
  Claim C10. \<open>remove(v)\<close> of an absent \<open>v\<close> on a hash-backed set of size at most 20
  migrates it to the vector, and \<open>add(v)\<close> of a present \<open>v\<close> on a vector-backed set of
  size at least 20 migrates it to the hash set; both keep \<open>contains\<close> and \<open>size()\<close>.
\<close>

theorem policy_on_unchanged_set:
  assumes "iteration_ok it" and "SetImpl_inv (impl s)"
  shows "(is_HashSetImpl (impl s) \<and> Set_size s \<le> 20 \<and> \<not> Set_contains s v \<longrightarrow>
            is_VectorSetImpl (impl (Set_remove it v s))
          \<and> Set_contains (Set_remove it v s) w = Set_contains s w
          \<and> Set_size (Set_remove it v s) = Set_size s)
       \<and> (is_VectorSetImpl (impl s) \<and> Set_size s \<ge> 20 \<and> Set_contains s v \<longrightarrow>
            is_HashSetImpl (impl (Set_add it v s))
          \<and> Set_contains (Set_add it v s) w = Set_contains s w
          \<and> Set_size (Set_add it v s) = Set_size s)"
proof -
  have i1: "SetImpl_inv (impl (Set_add it v s))"
    using assms(2) by (rule inv_Set_add)
  have i3: "SetImpl_inv (impl (Set_remove it v s))"
    using assms(2) by (rule inv_Set_remove)
  have k1: "is_HashSetImpl (impl s) \<and> Set_size s \<le> 20 \<and> \<not> Set_contains s v \<longrightarrow>
            is_VectorSetImpl (impl (Set_remove it v s))"
    by (cases "impl s")
       (auto simp: Set_remove_def Set_size_def Set_contains_def SWITCH_THRESHOLD_def
          switch_to_vector_def kind_fold_add)
  have k2: "is_VectorSetImpl (impl s) \<and> Set_size s \<ge> 20 \<and> Set_contains s v \<longrightarrow>
            is_HashSetImpl (impl (Set_add it v s))"
    by (cases "impl s")
       (auto simp: Set_add_def Set_size_def Set_contains_def SWITCH_THRESHOLD_def
          switch_to_hash_def fold_add_hash)
  have e1: "\<not> Set_contains s v \<longrightarrow> Set_contains (Set_remove it v s) w = Set_contains s w
          \<and> Set_size (Set_remove it v s) = Set_size s"
    using assms(1)
    by (auto simp add: Set_contains_def Set_size_def contains_elems size_card[OF i3]
          size_card[OF assms(2)] elems_Set_remove)
  have e2: "Set_contains s v \<longrightarrow> Set_contains (Set_add it v s) w = Set_contains s w
          \<and> Set_size (Set_add it v s) = Set_size s"
    by (auto simp add: Set_contains_def Set_size_def contains_elems size_card[OF i1]
          size_card[OF assms(2)] elems_Set_add insert_absorb)
  from k1 k2 e1 e2 show ?thesis by blast
qed

theorem policy_on_unchanged_set_witness:
  "is_VectorSetImpl (impl (Set_remove sorted_list_of_fset 7 \<lparr>impl = HashSetImpl {|10, 20|}\<rparr>))
   \<and> Set_contains (Set_remove sorted_list_of_fset 7 \<lparr>impl = HashSetImpl {|10, 20|}\<rparr>) 10
   \<and> Set_size (Set_remove sorted_list_of_fset 7 \<lparr>impl = HashSetImpl {|10, 20|}\<rparr>) = 2
   \<and> is_HashSetImpl
        (impl (Set_add sorted_list_of_fset 3 (add_all sorted_list_of_fset (map int [0..<20]) Set_new)))
   \<and> Set_contains
        (Set_add sorted_list_of_fset 3 (add_all sorted_list_of_fset (map int [0..<20]) Set_new)) 10
   \<and> Set_size
        (Set_add sorted_list_of_fset 3 (add_all sorted_list_of_fset (map int [0..<20]) Set_new)) = 20"
proof -
  have h: "SetImpl_inv (impl \<lparr>impl = HashSetImpl {|10, 20|}\<rparr>)
         \<and> is_HashSetImpl (impl \<lparr>impl = HashSetImpl {|10, 20|}\<rparr>)
         \<and> Set_size \<lparr>impl = HashSetImpl {|10, 20|}\<rparr> = 2
         \<and> \<not> Set_contains \<lparr>impl = HashSetImpl {|10, 20|}\<rparr> 7
         \<and> Set_contains \<lparr>impl = HashSetImpl {|10, 20|}\<rparr> 10"
    by (simp add: Set_size_def Set_contains_def fcard_finsert_if)
  have v: "SetImpl_inv (impl (add_all sorted_list_of_fset (map int [0..<20]) Set_new))
         \<and> is_VectorSetImpl (impl (add_all sorted_list_of_fset (map int [0..<20]) Set_new))
         \<and> Set_size (add_all sorted_list_of_fset (map int [0..<20]) Set_new) = 20
         \<and> Set_contains (add_all sorted_list_of_fset (map int [0..<20]) Set_new) 3
         \<and> Set_contains (add_all sorted_list_of_fset (map int [0..<20]) Set_new) 10"
    by (simp add: add_upto Set_size_def Set_contains_def distinct_map)
  show ?thesis
    using policy_on_unchanged_set[OF iteration_ok_sorted, of "\<lparr>impl = HashSetImpl {|10, 20|}\<rparr>" 7 10]
          policy_on_unchanged_set[OF iteration_ok_sorted,
            of "add_all sorted_list_of_fset (map int [0..<20]) Set_new" 3 10] h v
    by simp
qed

end
